theory Spec2Isabelle
  imports Main
begin

section \<open>The segmented button: group container and segment items\<close>

text \<open>
  The component file defines a group container \<open>SegmentedButton\<close>, which owns the
  selected identifier (taken from a controlling owner or held in a local state cell), and
  segment items \<open>SegmentedButtonItem\<close>, which read the container's shared context.
  The embedding follows the two components function by function. Style class names, the
  forwarded \<open>ref\<close> and the text content of a segment are presentational and are not
  modelled.
\<close>

subsection \<open>Values\<close>

datatype variant = primary | secondary

datatype size = size_default | sm | lg

text \<open>
  A property of type \<open>boolean | undefined\<close> is a \<open>bool option\<close>, \<open>None\<close> being
  \<open>undefined\<close>. \<open>truthy\<close> is the test that \<open>if (x)\<close> and \<open>!x\<close> make, and \<open>js_or\<close> is
  the operator \<open>||\<close>, which returns its left operand when that is truthy and its right
  operand otherwise.
\<close>

definition truthy :: "bool option \<Rightarrow> bool" where
  "truthy b = (b = Some True)"

definition js_or :: "bool option \<Rightarrow> bool option \<Rightarrow> bool option" where
  "js_or a b = (if truthy a then a else b)"

text \<open>
  The state the handlers act on: the container's local state cell (\<open>React.useState\<close>) and
  the state of the owner of the group, which only the owner's own functions change.
\<close>

record 'e world =
  uncontrolledValue :: string
  owner :: 'e

text \<open>
  The value of an attribute of a rendered element: a boolean, a string, \<open>undefined\<close>, or
  an event handler.
\<close>

datatype 'e attr = Bool bool | Str string | Undefined | Fn "'e world \<Rightarrow> 'e world"

type_synonym 'e element = "string \<rightharpoonup> 'e attr"

definition optAttr :: "bool option \<Rightarrow> 'e attr" where
  "optAttr b = (case b of None \<Rightarrow> Undefined | Some x \<Rightarrow> Bool x)"

subsection \<open>The group container\<close>

text \<open>
  \<open>SegmentedButtonContextType\<close>: what the container shares with its items.
\<close>

record 'e SegmentedButtonContextType =
  selectedValue :: string
  onValueChange :: "string \<Rightarrow> 'e world \<Rightarrow> 'e world"
  variant :: variant
  disabled :: "bool option"

text \<open>
  \<open>SegmentedButtonProps\<close>. The source binds the property \<open>value\<close> to the name
  \<open>controlledValue\<close>; the properties \<open>variant\<close>, \<open>size\<close>, \<open>onValueChange\<close> and
  \<open>disabled\<close> carry the suffix \<open>Prop\<close> here, since the context has fields of the same
  names. The external notification function acts on the owner's state.
\<close>

record 'e SegmentedButtonProps =
  variantProp :: "variant option"
  sizeProp :: "size option"
  defaultValue :: "string option"
  controlledValue :: "string option"
  onValueChangeProp :: "(string \<Rightarrow> 'e \<Rightarrow> 'e) option"
  disabledProp :: "bool option"

text \<open>
  Mounting the container: \<open>React.useState(defaultValue)\<close>, where the parameter
  \<open>defaultValue\<close> defaults to the empty string.
\<close>

definition mount :: "'e SegmentedButtonProps \<Rightarrow> 'e \<Rightarrow> 'e world" where
  "mount p e =
     \<lparr>uncontrolledValue = (case defaultValue p of None \<Rightarrow> '''' | Some d \<Rightarrow> d),
      owner = e\<rparr>"

definition isControlled :: "'e SegmentedButtonProps \<Rightarrow> bool" where
  "isControlled p = (controlledValue p \<noteq> None)"

definition selectedValueOf :: "'e SegmentedButtonProps \<Rightarrow> 'e world \<Rightarrow> string" where
  "selectedValueOf p w =
     (case controlledValue p of Some v \<Rightarrow> v | None \<Rightarrow> uncontrolledValue w)"

definition setUncontrolledValue :: "string \<Rightarrow> 'e world \<Rightarrow> 'e world" where
  "setUncontrolledValue newValue w = w\<lparr>uncontrolledValue := newValue\<rparr>"

definition handleValueChange :: "'e SegmentedButtonProps \<Rightarrow> string \<Rightarrow> 'e world \<Rightarrow> 'e world" where
  "handleValueChange p newValue w =
     (let w1 = (if \<not> isControlled p then setUncontrolledValue newValue w else w)
      in case onValueChangeProp p of
           None \<Rightarrow> w1
         | Some f \<Rightarrow> w1\<lparr>owner := f newValue (owner w1)\<rparr>)"

text \<open>The context value that one rendering of the container provides to its children.\<close>

definition SegmentedButton ::
  "'e SegmentedButtonProps \<Rightarrow> 'e world \<Rightarrow> 'e SegmentedButtonContextType" where
  "SegmentedButton p w =
     \<lparr>selectedValue = selectedValueOf p w,
      onValueChange = handleValueChange p,
      variant = (case variantProp p of None \<Rightarrow> primary | Some v \<Rightarrow> v),
      disabled = disabledProp p\<rparr>"

subsection \<open>The segment item\<close>

datatype error = Error string

definition useSegmentedButtonContext ::
  "'e SegmentedButtonContextType option \<Rightarrow> error + 'e SegmentedButtonContextType" where
  "useSegmentedButtonContext context =
     (case context of
        None \<Rightarrow> Inl (Error ''SegmentedButtonItem must be used within SegmentedButton'')
      | Some c \<Rightarrow> Inr c)"

text \<open>
  \<open>SegmentedButtonItemProps\<close>: the identifier \<open>value\<close>, the own \<open>disabled\<close> flag, and
  \<open>props\<close>, every other property the integrator wrote on the item, by attribute name.
\<close>

record 'e SegmentedButtonItemProps =
  itemValue :: string
  itemDisabled :: "bool option"
  props :: "'e element"

text \<open>The names the item takes out of its properties before the rest is passed on.\<close>

definition destructured :: "string set" where
  "destructured = {''className'', ''value'', ''label'', ''children'', ''disabled''}"

definition isSelected :: "'e SegmentedButtonContextType \<Rightarrow> 'e SegmentedButtonItemProps \<Rightarrow> bool" where
  "isSelected c i = (selectedValue c = itemValue i)"

definition isDisabled ::
  "'e SegmentedButtonContextType \<Rightarrow> 'e SegmentedButtonItemProps \<Rightarrow> bool option" where
  "isDisabled c i = js_or (itemDisabled i) (disabled c)"

definition handleClick ::
  "'e SegmentedButtonContextType \<Rightarrow> 'e SegmentedButtonItemProps \<Rightarrow> 'e world \<Rightarrow> 'e world" where
  "handleClick c i w =
     (if \<not> truthy (isDisabled c i) then onValueChange c (itemValue i) w else w)"

text \<open>
  The rendered \<open>button\<close>: the attributes the item computes, then the passed-on properties
  spread over them, so that a passed-on attribute replaces a computed one of the same name.
\<close>

definition SegmentedButtonItem ::
  "'e SegmentedButtonContextType option \<Rightarrow> 'e SegmentedButtonItemProps \<Rightarrow> error + 'e element" where
  "SegmentedButtonItem context i =
     (case useSegmentedButtonContext context of
        Inl e \<Rightarrow> Inl e
      | Inr c \<Rightarrow>
          Inr ([''type'' \<mapsto> Str ''button'',
                ''role'' \<mapsto> Str ''radio'',
                ''aria-checked'' \<mapsto> Bool (isSelected c i),
                ''aria-disabled'' \<mapsto> optAttr (isDisabled c i),
                ''data-state'' \<mapsto> Str (if isSelected c i then ''active'' else ''inactive''),
                ''disabled'' \<mapsto> optAttr (isDisabled c i),
                ''onClick'' \<mapsto> Fn (handleClick c i)]
               ++ (props i |` (- destructured))))"

text \<open>
  The platform's part of an activation: a button whose \<open>disabled\<close> attribute is set
  receives no click; any other button runs the handler under \<open>onClick\<close>, if it is one.
\<close>

definition click :: "'e element \<Rightarrow> 'e world \<Rightarrow> 'e world" where
  "click b w =
     (if b ''disabled'' = Some (Bool True) then w
      else case b ''onClick'' of Some (Fn h) \<Rightarrow> h w | _ \<Rightarrow> w)"

text \<open>Activating a segment: the item is rendered in its context and its button clicked.\<close>

definition activate ::
  "'e SegmentedButtonContextType option \<Rightarrow> 'e SegmentedButtonItemProps \<Rightarrow> 'e world \<Rightarrow> error + 'e world" where
  "activate context i w =
     (case SegmentedButtonItem context i of Inl e \<Rightarrow> Inl e | Inr b \<Rightarrow> Inr (click b w))"

text \<open>The items of a group, rendered in the context the container provides.\<close>

definition renderChildren ::
  "'e SegmentedButtonProps \<Rightarrow> 'e world \<Rightarrow> 'e SegmentedButtonItemProps list \<Rightarrow> (error + 'e element) list" where
  "renderChildren p w items = map (SegmentedButtonItem (Some (SegmentedButton p w))) items"

text \<open>
  What a rendered segment shows to the outside: the checked attribute for assistive
  technology and the state attribute for styling.
\<close>

definition ariaChecked :: "error + 'e element \<Rightarrow> bool" where
  "ariaChecked r = (case r of Inl e \<Rightarrow> False | Inr b \<Rightarrow> b ''aria-checked'' = Some (Bool True))"

definition dataStateActive :: "error + 'e element \<Rightarrow> bool" where
  "dataStateActive r = (case r of Inl e \<Rightarrow> False | Inr b \<Rightarrow> b ''data-state'' = Some (Str ''active''))"

definition reportsActive :: "error + 'e element \<Rightarrow> bool" where
  "reportsActive r = (ariaChecked r \<or> dataStateActive r)"

text \<open>An item that passes on neither of the two indicator attributes.\<close>

definition keepsIndicators :: "'e SegmentedButtonItemProps \<Rightarrow> bool" where
  "keepsIndicators i = (props i ''aria-checked'' = None \<and> props i ''data-state'' = None)"

text \<open>An item that passes on no click handler of its own.\<close>

definition keepsOnClick :: "'e SegmentedButtonItemProps \<Rightarrow> bool" where
  "keepsOnClick i = (props i ''onClick'' = None)"

subsection \<open>Sample groups\<close>

text \<open>
  The groups and segments that the stories of the component write: a segment given only
  its identifier, an uncontrolled group with a default value, a controlled group, and a
  group given no property at all. The sample owner keeps the list of the identifiers it
  was notified of; the sample click handler notes the click in that list.
\<close>

definition segment :: "string \<Rightarrow> 'e SegmentedButtonItemProps" where
  "segment v = \<lparr>itemValue = v, itemDisabled = None, props = Map.empty\<rparr>"

definition uncontrolledGroup ::
  "string \<Rightarrow> (string \<Rightarrow> 'e \<Rightarrow> 'e) option \<Rightarrow> bool option \<Rightarrow> 'e SegmentedButtonProps" where
  "uncontrolledGroup d f g =
     \<lparr>variantProp = Some primary, sizeProp = Some size_default, defaultValue = Some d,
      controlledValue = None, onValueChangeProp = f, disabledProp = g\<rparr>"

definition controlledGroup ::
  "string \<Rightarrow> (string \<Rightarrow> 'e \<Rightarrow> 'e) option \<Rightarrow> 'e SegmentedButtonProps" where
  "controlledGroup v f =
     \<lparr>variantProp = Some primary, sizeProp = None, defaultValue = None,
      controlledValue = Some v, onValueChangeProp = f, disabledProp = None\<rparr>"

definition bareGroup :: "'e SegmentedButtonProps" where
  "bareGroup =
     \<lparr>variantProp = None, sizeProp = None, defaultValue = None,
      controlledValue = None, onValueChangeProp = None, disabledProp = None\<rparr>"

definition recordCall :: "string \<Rightarrow> string list \<Rightarrow> string list" where
  "recordCall v calls = calls @ [v]"

definition recordClick :: "string list world \<Rightarrow> string list world" where
  "recordClick w = w\<lparr>owner := owner w @ [''clicked'']\<rparr>"

lemmas samples =
  segment_def uncontrolledGroup_def controlledGroup_def bareGroup_def recordCall_def
  recordClick_def

section \<open>Properties\<close>

subsection \<open>Helper facts\<close>

lemma truthy_js_or: "truthy (js_or a b) = (truthy a \<or> truthy b)"
  by (simp add: js_or_def)

lemma handleValueChange_local:
  "uncontrolledValue (handleValueChange p v w) = (if isControlled p then uncontrolledValue w else v)"
  by (simp add: handleValueChange_def setUncontrolledValue_def Let_def split: option.splits)

lemma handleValueChange_owner:
  "owner (handleValueChange p v w) =
     (case onValueChangeProp p of None \<Rightarrow> owner w | Some f \<Rightarrow> f v (owner w))"
  by (simp add: handleValueChange_def setUncontrolledValue_def Let_def split: option.splits)

lemma ariaChecked_rendered:
  "ariaChecked (SegmentedButtonItem (Some c) i) =
     (case props i ''aria-checked'' of None \<Rightarrow> isSelected c i | Some a \<Rightarrow> a = Bool True)"
  by (simp add: ariaChecked_def SegmentedButtonItem_def useSegmentedButtonContext_def
      map_add_def restrict_map_def destructured_def split: option.splits)

lemma dataStateActive_rendered:
  "dataStateActive (SegmentedButtonItem (Some c) i) =
     (case props i ''data-state'' of None \<Rightarrow> isSelected c i | Some a \<Rightarrow> a = Str ''active'')"
  by (simp add: dataStateActive_def SegmentedButtonItem_def useSegmentedButtonContext_def
      map_add_def restrict_map_def destructured_def split: option.splits)

lemma reportsActive_rendered:
  "keepsIndicators i \<Longrightarrow> reportsActive (SegmentedButtonItem (Some c) i) = isSelected c i"
  by (simp add: reportsActive_def ariaChecked_rendered dataStateActive_rendered keepsIndicators_def)

text \<open>
  What an activation does, case by case: nothing on a disabled segment; otherwise the
  passed-on click handler when there is one, and the item's own handler when there is none.
\<close>

lemma activate_rendered:
  "activate (Some c) i w =
     Inr (if truthy (isDisabled c i) then w
          else case props i ''onClick'' of
                 None \<Rightarrow> handleClick c i w
               | Some (Fn h) \<Rightarrow> h w
               | Some _ \<Rightarrow> w)"
  by (simp add: activate_def SegmentedButtonItem_def useSegmentedButtonContext_def click_def
      map_add_def restrict_map_def destructured_def optAttr_def truthy_def
      split: option.splits attr.splits)

lemma activate_own_handler:
  "\<not> truthy (itemDisabled i) \<Longrightarrow> \<not> truthy (disabled c) \<Longrightarrow> keepsOnClick i \<Longrightarrow>
   activate (Some c) i w = Inr (onValueChange c (itemValue i) w)"
  by (simp add: activate_rendered keepsOnClick_def isDisabled_def truthy_js_or handleClick_def)

lemma activate_in_group:
  "\<not> truthy (itemDisabled i) \<Longrightarrow> \<not> truthy (disabledProp p) \<Longrightarrow> keepsOnClick i \<Longrightarrow>
   activate (Some (SegmentedButton p w)) i w = Inr (handleValueChange p (itemValue i) w)"
  by (simp add: activate_own_handler SegmentedButton_def)

lemma filter_key_distinct:
  "distinct (map f xs) \<Longrightarrow> length (filter (\<lambda>x. f x = a) xs) \<le> 1"
proof (induction xs)
  case Nil
  then show ?case by simp
next
  case (Cons x xs)
  show ?case
  proof (cases "f x = a")
    case True
    with Cons.prems have "a \<notin> f ` set xs" by auto
    then have "filter (\<lambda>x. f x = a) xs = []"
      unfolding filter_empty_conv by (metis imageI)
    with True show ?thesis by simp
  next
    case False
    with Cons show ?thesis by simp
  qed
qed

subsection \<open>The change function of the container\<close>

text \<open>
  C6. On a change reported by a child: a group that is not externally controlled sets its
  local value to the reported identifier, a controlled group leaves its local value as it
  is, and in both cases the external notification function, when present, is applied to
  the reported identifier.
\<close>

theorem handleValueChange_forwards:
  "(\<not> isControlled p \<longrightarrow> uncontrolledValue (handleValueChange p v w) = v) \<and>
   (isControlled p \<longrightarrow> uncontrolledValue (handleValueChange p v w) = uncontrolledValue w) \<and>
   (\<forall>f. onValueChangeProp p = Some f \<longrightarrow> owner (handleValueChange p v w) = f v (owner w)) \<and>
   (onValueChangeProp p = None \<longrightarrow> owner (handleValueChange p v w) = owner w)"
  by (simp add: handleValueChange_local handleValueChange_owner)

theorem handleValueChange_forwards_witness:
  "\<not> isControlled (uncontrolledGroup ''medium'' (Some recordCall) None) \<and>
   isControlled (controlledGroup ''week'' (Some recordCall)) \<and>
   handleValueChange (uncontrolledGroup ''medium'' (Some recordCall) None) ''large''
     \<lparr>uncontrolledValue = ''medium'', owner = []\<rparr> =
     \<lparr>uncontrolledValue = ''large'', owner = [''large'']\<rparr> \<and>
   handleValueChange (controlledGroup ''week'' (Some recordCall)) ''month''
     \<lparr>uncontrolledValue = '''', owner = []\<rparr> =
     \<lparr>uncontrolledValue = '''', owner = [''month'']\<rparr>"
proof -
  have u: "\<not> isControlled (uncontrolledGroup ''medium'' (Some recordCall) None)"
    by (simp add: isControlled_def samples)
  have c: "isControlled (controlledGroup ''week'' (Some recordCall))"
    by (simp add: isControlled_def samples)
  have fu: "onValueChangeProp (uncontrolledGroup ''medium'' (Some recordCall) None) = Some recordCall"
    by (simp add: samples)
  have fc: "onValueChangeProp (controlledGroup ''week'' (Some recordCall)) = Some recordCall"
    by (simp add: samples)
  from handleValueChange_forwards
    [of "uncontrolledGroup ''medium'' (Some recordCall) None" "''large''"
        "\<lparr>uncontrolledValue = ''medium'', owner = []\<rparr>"] u fu
  have 1: "handleValueChange (uncontrolledGroup ''medium'' (Some recordCall) None) ''large''
     \<lparr>uncontrolledValue = ''medium'', owner = []\<rparr> =
     \<lparr>uncontrolledValue = ''large'', owner = [''large'']\<rparr>"
    by (simp add: recordCall_def world.equality)
  from handleValueChange_forwards
    [of "controlledGroup ''week'' (Some recordCall)" "''month''"
        "\<lparr>uncontrolledValue = '''', owner = []\<rparr>"] c fc
  have 2: "handleValueChange (controlledGroup ''week'' (Some recordCall)) ''month''
     \<lparr>uncontrolledValue = '''', owner = []\<rparr> =
     \<lparr>uncontrolledValue = '''', owner = [''month'']\<rparr>"
    by (simp add: recordCall_def world.equality)
  from u c 1 2 show ?thesis by simp
qed

subsection \<open>Disabled segments\<close>

text \<open>
  C4. A segment whose own disabled flag is set, and any segment of a group whose disabled
  flag is set, never triggers a change on activation: whatever the shared change function
  is, the item's click handler does not apply it, and a click on the rendered segment
  leaves the group's local state and the owner's state as they were.
\<close>

theorem disabled_segment_no_change:
  assumes "truthy (itemDisabled i) \<or> truthy (disabled c)"
  shows "handleClick c i w = w \<and> activate (Some c) i w = Inr w"
proof -
  from assms have d: "truthy (isDisabled c i)"
    by (simp add: isDisabled_def truthy_js_or)
  then have "activate (Some c) i w = Inr w"
    by (simp add: activate_rendered)
  moreover from d have "handleClick c i w = w"
    by (simp add: handleClick_def)
  ultimately show ?thesis by simp
qed

theorem disabled_segment_no_change_witness:
  "truthy (disabled (SegmentedButton (uncontrolledGroup ''medium'' (Some recordCall) (Some True))
      \<lparr>uncontrolledValue = ''medium'', owner = []\<rparr>)) \<and>
   activate
     (Some (SegmentedButton (uncontrolledGroup ''medium'' (Some recordCall) (Some True))
        \<lparr>uncontrolledValue = ''medium'', owner = []\<rparr>))
     (segment ''large'') \<lparr>uncontrolledValue = ''medium'', owner = []\<rparr> =
     Inr \<lparr>uncontrolledValue = ''medium'', owner = []\<rparr> \<and>
   truthy (itemDisabled ((segment ''large'') \<lparr>itemDisabled := Some True\<rparr>)) \<and>
   activate
     (Some (SegmentedButton (uncontrolledGroup ''small'' (Some recordCall) None)
        \<lparr>uncontrolledValue = ''small'', owner = []\<rparr>))
     ((segment ''large'') \<lparr>itemDisabled := Some True\<rparr>)
     \<lparr>uncontrolledValue = ''small'', owner = []\<rparr> =
     Inr \<lparr>uncontrolledValue = ''small'', owner = []\<rparr> \<and>
   handleValueChange (uncontrolledGroup ''small'' (Some recordCall) None) ''large''
     \<lparr>uncontrolledValue = ''small'', owner = []\<rparr> =
     \<lparr>uncontrolledValue = ''large'', owner = [''large'']\<rparr>"
proof -
  let ?g = "SegmentedButton (uncontrolledGroup ''medium'' (Some recordCall) (Some True))
      \<lparr>uncontrolledValue = ''medium'', owner = []\<rparr>"
  let ?h = "SegmentedButton (uncontrolledGroup ''small'' (Some recordCall) None)
      \<lparr>uncontrolledValue = ''small'', owner = []\<rparr>"
  let ?i = "(segment ''large'') \<lparr>itemDisabled := Some True\<rparr> :: string list SegmentedButtonItemProps"
  have g: "truthy (disabled ?g)"
    by (simp add: SegmentedButton_def truthy_def samples)
  have i: "truthy (itemDisabled ?i)"
    by (simp add: truthy_def)
  from g have 1: "truthy (itemDisabled (segment ''large'')) \<or> truthy (disabled ?g)" ..
  from i have 2: "truthy (itemDisabled ?i) \<or> truthy (disabled ?h)" ..
  have 3: "handleValueChange (uncontrolledGroup ''small'' (Some recordCall) None) ''large''
     \<lparr>uncontrolledValue = ''small'', owner = []\<rparr> =
     \<lparr>uncontrolledValue = ''large'', owner = [''large'']\<rparr>"
    by (simp add: handleValueChange_def isControlled_def setUncontrolledValue_def samples)
  from disabled_segment_no_change [OF 1] disabled_segment_no_change [OF 2] g i 3
  show ?thesis by simp
qed

subsection \<open>The usage error\<close>

text \<open>
  C5. A segment item rendered outside a group container fails at once with the usage
  error of the context accessor; that is the only error there is, and an item rendered
  inside a group container never meets it.
\<close>

theorem usage_error_only_outside_group:
  "useSegmentedButtonContext (None :: 'e SegmentedButtonContextType option) =
     Inl (Error ''SegmentedButtonItem must be used within SegmentedButton'') \<and>
   SegmentedButtonItem None (i :: 'e SegmentedButtonItemProps) =
     Inl (Error ''SegmentedButtonItem must be used within SegmentedButton'') \<and>
   (\<forall>context e. SegmentedButtonItem context i = Inl e \<longrightarrow>
      context = None \<and> e = Error ''SegmentedButtonItem must be used within SegmentedButton'') \<and>
   (\<forall>r \<in> set (renderChildren (p :: 'e SegmentedButtonProps) w items). \<exists>b. r = Inr b)"
  by (auto simp add: SegmentedButtonItem_def useSegmentedButtonContext_def renderChildren_def
      split: option.splits)

theorem usage_error_only_outside_group_witness:
  "SegmentedButtonItem None (segment ''large'' :: unit SegmentedButtonItemProps) =
     Inl (Error ''SegmentedButtonItem must be used within SegmentedButton'') \<and>
   \<not> isl (SegmentedButtonItem
     (Some (SegmentedButton (uncontrolledGroup ''medium'' None None)
        \<lparr>uncontrolledValue = ''medium'', owner = ()\<rparr>))
     (segment ''large''))"
proof -
  let ?c = "SegmentedButton (uncontrolledGroup ''medium'' None None)
        \<lparr>uncontrolledValue = ''medium'', owner = ()\<rparr>"
  note t = usage_error_only_outside_group
    [of "segment ''large'' :: unit SegmentedButtonItemProps"
        "uncontrolledGroup ''medium'' None None"
        "\<lparr>uncontrolledValue = ''medium'', owner = ()\<rparr>" "[segment ''large'']"]
  have "SegmentedButtonItem (Some ?c) (segment ''large'') \<in>
        set (renderChildren (uncontrolledGroup ''medium'' None None)
          \<lparr>uncontrolledValue = ''medium'', owner = ()\<rparr> [segment ''large''])"
    by (simp add: renderChildren_def)
  with t obtain b where "SegmentedButtonItem (Some ?c) (segment ''large'') = Inr b"
    by blast
  then have "\<not> isl (SegmentedButtonItem (Some ?c) (segment ''large''))"
    by simp
  with t show ?thesis by blast
qed

subsection \<open>The initial selection\<close>

text \<open>
  C8. An uncontrolled group constructed without a default value starts with the empty
  string as its selected value, so that at first no segment with a non-empty identifier
  is active.
\<close>

theorem initial_selection_empty:
  assumes "controlledValue p = None" and "defaultValue p = None"
  shows "selectedValueOf p (mount p e) = '''' \<and>
         selectedValue (SegmentedButton p (mount p e)) = '''' \<and>
         (\<forall>i. itemValue i \<noteq> '''' \<longrightarrow> \<not> isSelected (SegmentedButton p (mount p e)) i)"
  using assms
  by (auto simp add: selectedValueOf_def mount_def SegmentedButton_def isSelected_def)

theorem initial_selection_empty_witness:
  "controlledValue (bareGroup :: unit SegmentedButtonProps) = None \<and>
   defaultValue (bareGroup :: unit SegmentedButtonProps) = None \<and>
   selectedValueOf bareGroup (mount bareGroup ()) = '''' \<and>
   \<not> isSelected (SegmentedButton bareGroup (mount bareGroup ())) (segment ''small'')"
proof -
  have c: "controlledValue (bareGroup :: unit SegmentedButtonProps) = None"
    by (simp add: bareGroup_def)
  have d: "defaultValue (bareGroup :: unit SegmentedButtonProps) = None"
    by (simp add: bareGroup_def)
  have n: "itemValue (segment ''small'' :: unit SegmentedButtonItemProps) \<noteq> ''''"
    by (simp add: segment_def)
  from initial_selection_empty [OF c d, of "()"] n c d show ?thesis
    by blast
qed

subsection \<open>One active segment\<close>

text \<open>
  C1 (amended). In a group whose segment identifiers are pairwise distinct and whose
  segments pass on neither indicator attribute, at most one rendered segment reports
  active; a segment reports active exactly when its identifier equals the group's selected
  identifier; and when no identifier equals it, no segment reports active.
\<close>

theorem at_most_one_segment_active:
  assumes "distinct (map itemValue items)"
    and "\<forall>i \<in> set items. keepsIndicators i"
  shows "length (filter reportsActive (renderChildren p w items)) \<le> 1 \<and>
         (\<forall>i \<in> set items.
            reportsActive (SegmentedButtonItem (Some (SegmentedButton p w)) i) =
              (itemValue i = selectedValueOf p w)) \<and>
         (selectedValueOf p w \<notin> itemValue ` set items \<longrightarrow>
            filter reportsActive (renderChildren p w items) = [])"
proof -
  let ?c = "SegmentedButton p w"
  have sel: "selectedValue ?c = selectedValueOf p w"
    by (simp add: SegmentedButton_def)
  have each: "reportsActive (SegmentedButtonItem (Some ?c) i) = (itemValue i = selectedValueOf p w)"
    if "i \<in> set items" for i
    using that assms(2) sel by (auto simp add: reportsActive_rendered isSelected_def)
  have "filter reportsActive (renderChildren p w items) =
        map (SegmentedButtonItem (Some ?c)) (filter (\<lambda>i. itemValue i = selectedValueOf p w) items)"
    unfolding renderChildren_def filter_map
    by (rule arg_cong [where f = "map (SegmentedButtonItem (Some ?c))"], rule filter_cong)
      (simp_all add: each)
  then have len: "length (filter reportsActive (renderChildren p w items)) =
        length (filter (\<lambda>i. itemValue i = selectedValueOf p w) items)"
    by simp
  have one: "length (filter reportsActive (renderChildren p w items)) \<le> 1"
    unfolding len using assms(1) by (rule filter_key_distinct)
  have none: "filter reportsActive (renderChildren p w items) = []"
    if "selectedValueOf p w \<notin> itemValue ` set items"
  proof -
    from that have "filter (\<lambda>i. itemValue i = selectedValueOf p w) items = []"
      unfolding filter_empty_conv by (metis imageI)
    with len show ?thesis by simp
  qed
  from one each none show ?thesis by blast
qed

theorem at_most_one_segment_active_witness:
  "distinct (map itemValue [segment ''small'', segment ''medium'', segment ''large'' :: unit SegmentedButtonItemProps]) \<and>
   list_all keepsIndicators [segment ''small'', segment ''medium'', segment ''large'' :: unit SegmentedButtonItemProps] \<and>
   map reportsActive
     (renderChildren (uncontrolledGroup ''medium'' None None)
        \<lparr>uncontrolledValue = ''medium'', owner = ()\<rparr>
        [segment ''small'', segment ''medium'', segment ''large'']) = [False, True, False] \<and>
   length (filter reportsActive
     (renderChildren (uncontrolledGroup ''medium'' None None)
        \<lparr>uncontrolledValue = ''medium'', owner = ()\<rparr>
        [segment ''small'', segment ''medium'', segment ''large''])) \<le> 1"
proof -
  let ?items = "[segment ''small'', segment ''medium'', segment ''large'' :: unit SegmentedButtonItemProps]"
  let ?p = "uncontrolledGroup ''medium'' None None :: unit SegmentedButtonProps"
  let ?w = "\<lparr>uncontrolledValue = ''medium'', owner = ()\<rparr>"
  have d: "distinct (map itemValue ?items)"
    by (simp add: segment_def)
  have k: "\<forall>i \<in> set ?items. keepsIndicators i"
    by (simp add: segment_def keepsIndicators_def)
  have s: "selectedValueOf ?p ?w = ''medium''"
    by (simp add: selectedValueOf_def uncontrolledGroup_def)
  note t = at_most_one_segment_active [OF d k, of ?p ?w]
  from t s have "map reportsActive (renderChildren ?p ?w ?items) = [False, True, False]"
    by (simp add: renderChildren_def segment_def)
  with t d k show ?thesis
    by (simp add: list_all_iff)
qed

text \<open>
  Neither hypothesis can be dropped: two segments with the same identifier both report
  active when that identifier is selected, and a segment that passes on a checked
  attribute reports active whatever is selected.
\<close>

theorem duplicate_or_overridden_segments_both_active:
  "length (filter reportsActive
     (renderChildren (uncontrolledGroup ''a'' None None)
        \<lparr>uncontrolledValue = ''a'', owner = ()\<rparr>
        [segment ''a'', segment ''a''])) = 2 \<and>
   length (filter reportsActive
     (renderChildren (uncontrolledGroup ''a'' None None)
        \<lparr>uncontrolledValue = ''a'', owner = ()\<rparr>
        [segment ''a'', (segment ''b'') \<lparr>props := [''aria-checked'' \<mapsto> Bool True]\<rparr>])) = 2"
  by (simp add: renderChildren_def reportsActive_def ariaChecked_rendered
      dataStateActive_rendered isSelected_def SegmentedButton_def selectedValueOf_def samples)

subsection \<open>Activation in a controlled group\<close>

text \<open>
  C2 (amended). In a controlled group, activating a segment that is not disabled and that
  passes on no click handler of its own leaves the group's local state unchanged, so that
  the displayed active segment remains the controlling value, and applies the external
  notification function, when one is supplied, to the segment's identifier; when none is
  supplied the activation changes nothing.
\<close>

theorem controlled_activation:
  assumes "controlledValue p = Some v"
    and "\<not> truthy (itemDisabled i)" and "\<not> truthy (disabledProp p)"
    and "keepsOnClick i"
  shows "activate (Some (SegmentedButton p w)) i w = Inr (handleValueChange p (itemValue i) w) \<and>
         uncontrolledValue (handleValueChange p (itemValue i) w) = uncontrolledValue w \<and>
         selectedValueOf p (handleValueChange p (itemValue i) w) = v \<and>
         (\<forall>f. onValueChangeProp p = Some f \<longrightarrow>
              owner (handleValueChange p (itemValue i) w) = f (itemValue i) (owner w)) \<and>
         (onValueChangeProp p = None \<longrightarrow> handleValueChange p (itemValue i) w = w)"
proof -
  from assms(2,3,4)
  have a: "activate (Some (SegmentedButton p w)) i w = Inr (handleValueChange p (itemValue i) w)"
    by (simp add: activate_in_group)
  from assms(1) have c: "isControlled p"
    by (simp add: isControlled_def)
  then have l: "uncontrolledValue (handleValueChange p (itemValue i) w) = uncontrolledValue w"
    by (simp add: handleValueChange_local)
  from assms(1) have s: "selectedValueOf p (handleValueChange p (itemValue i) w) = v"
    by (simp add: selectedValueOf_def)
  have n: "\<forall>f. onValueChangeProp p = Some f \<longrightarrow>
              owner (handleValueChange p (itemValue i) w) = f (itemValue i) (owner w)"
    by (simp add: handleValueChange_owner)
  from c have z: "onValueChangeProp p = None \<longrightarrow> handleValueChange p (itemValue i) w = w"
    by (simp add: handleValueChange_def)
  from a l s n z show ?thesis by blast
qed

theorem controlled_activation_witness:
  "controlledValue (controlledGroup ''week'' (Some recordCall)) = Some ''week'' \<and>
   keepsOnClick (segment ''month'' :: string list SegmentedButtonItemProps) \<and>
   activate
     (Some (SegmentedButton (controlledGroup ''week'' (Some recordCall))
        \<lparr>uncontrolledValue = '''', owner = []\<rparr>))
     (segment ''month'') \<lparr>uncontrolledValue = '''', owner = []\<rparr> =
     Inr \<lparr>uncontrolledValue = '''', owner = [''month'']\<rparr> \<and>
   selectedValueOf (controlledGroup ''week'' (Some recordCall))
     \<lparr>uncontrolledValue = '''', owner = [''month'']\<rparr> = ''week''"
proof -
  let ?p = "controlledGroup ''week'' (Some recordCall)"
  let ?i = "segment ''month'' :: string list SegmentedButtonItemProps"
  let ?w = "\<lparr>uncontrolledValue = '''', owner = [] :: string list\<rparr>"
  have c: "controlledValue ?p = Some ''week''"
    by (simp add: controlledGroup_def)
  have i: "\<not> truthy (itemDisabled ?i)"
    by (simp add: truthy_def segment_def)
  have g: "\<not> truthy (disabledProp ?p)"
    by (simp add: truthy_def controlledGroup_def)
  have k: "keepsOnClick ?i"
    by (simp add: keepsOnClick_def segment_def)
  have f: "onValueChangeProp ?p = Some recordCall"
    by (simp add: controlledGroup_def)
  have v: "itemValue ?i = ''month''"
    by (simp add: segment_def)
  note t = controlled_activation [OF c i g k, of ?w]
  from t f v have "handleValueChange ?p ''month'' ?w = \<lparr>uncontrolledValue = '''', owner = [''month'']\<rparr>"
    by (simp add: recordCall_def world.equality)
  with t v c k show ?thesis
    by simp
qed

text \<open>
  The restrictions are needed: a segment that passes on a click handler of its own runs
  that handler and the notification function is not applied; and a controlled group given
  no notification function has none to apply.
\<close>

theorem controlled_activation_not_always_notified:
  "activate
     (Some (SegmentedButton (controlledGroup ''week'' (Some recordCall))
        \<lparr>uncontrolledValue = '''', owner = []\<rparr>))
     ((segment ''month'') \<lparr>props := [''onClick'' \<mapsto> Fn recordClick]\<rparr>)
     \<lparr>uncontrolledValue = '''', owner = []\<rparr> =
     Inr \<lparr>uncontrolledValue = '''', owner = [''clicked'']\<rparr> \<and>
   onValueChangeProp (controlledGroup ''week'' None :: string list SegmentedButtonProps) = None \<and>
   activate
     (Some (SegmentedButton (controlledGroup ''week'' None)
        \<lparr>uncontrolledValue = '''', owner = []\<rparr>))
     (segment ''month'') \<lparr>uncontrolledValue = '''', owner = [] :: string list\<rparr> =
     Inr \<lparr>uncontrolledValue = '''', owner = []\<rparr>"
  by (simp add: activate_rendered isDisabled_def js_or_def truthy_def SegmentedButton_def
      handleClick_def handleValueChange_def isControlled_def samples)

subsection \<open>Activation in an uncontrolled group\<close>

text \<open>
  C3 (amended). In an uncontrolled group, activating a segment that is not disabled and
  that passes on neither a click handler nor an indicator attribute of its own sets the
  group's local selected value to the segment's identifier, so that the group's visible
  active segment becomes that segment: rendered again, it reports active, and any other
  segment that passes on no indicator attribute reports active only if it has the same
  identifier.
\<close>

theorem uncontrolled_activation:
  assumes "controlledValue p = None"
    and "\<not> truthy (itemDisabled i)" and "\<not> truthy (disabledProp p)"
    and "keepsOnClick i" and "keepsIndicators i"
  shows "activate (Some (SegmentedButton p w)) i w = Inr (handleValueChange p (itemValue i) w) \<and>
         uncontrolledValue (handleValueChange p (itemValue i) w) = itemValue i \<and>
         selectedValueOf p (handleValueChange p (itemValue i) w) = itemValue i \<and>
         isSelected (SegmentedButton p (handleValueChange p (itemValue i) w)) i \<and>
         reportsActive
           (SegmentedButtonItem (Some (SegmentedButton p (handleValueChange p (itemValue i) w))) i) \<and>
         (\<forall>j. keepsIndicators j \<longrightarrow>
            reportsActive
              (SegmentedButtonItem (Some (SegmentedButton p (handleValueChange p (itemValue i) w))) j)
            = (itemValue j = itemValue i))"
proof -
  let ?w' = "handleValueChange p (itemValue i) w"
  from assms(2,3,4)
  have a: "activate (Some (SegmentedButton p w)) i w = Inr ?w'"
    by (simp add: activate_in_group)
  from assms(1) have "\<not> isControlled p"
    by (simp add: isControlled_def)
  then have l: "uncontrolledValue ?w' = itemValue i"
    by (simp add: handleValueChange_local)
  with assms(1) have s: "selectedValueOf p ?w' = itemValue i"
    by (simp add: selectedValueOf_def)
  then have c: "selectedValue (SegmentedButton p ?w') = itemValue i"
    by (simp add: SegmentedButton_def)
  then have e: "isSelected (SegmentedButton p ?w') i"
    by (simp add: isSelected_def)
  have o: "reportsActive (SegmentedButtonItem (Some (SegmentedButton p ?w')) j) =
           (itemValue j = itemValue i)" if "keepsIndicators j" for j
    using that c by (auto simp add: reportsActive_rendered isSelected_def)
  from assms(5) have r: "reportsActive (SegmentedButtonItem (Some (SegmentedButton p ?w')) i)"
    by (simp add: o)
  from a l s e r o show ?thesis by blast
qed

theorem uncontrolled_activation_witness:
  "controlledValue (uncontrolledGroup ''medium'' None None :: unit SegmentedButtonProps) = None \<and>
   keepsOnClick (segment ''large'' :: unit SegmentedButtonItemProps) \<and>
   keepsIndicators (segment ''large'' :: unit SegmentedButtonItemProps) \<and>
   mount (uncontrolledGroup ''medium'' None None) () =
     \<lparr>uncontrolledValue = ''medium'', owner = ()\<rparr> \<and>
   activate
     (Some (SegmentedButton (uncontrolledGroup ''medium'' None None)
        \<lparr>uncontrolledValue = ''medium'', owner = ()\<rparr>))
     (segment ''large'') \<lparr>uncontrolledValue = ''medium'', owner = ()\<rparr> =
     Inr \<lparr>uncontrolledValue = ''large'', owner = ()\<rparr> \<and>
   selectedValueOf (uncontrolledGroup ''medium'' None None)
     \<lparr>uncontrolledValue = ''large'', owner = ()\<rparr> = ''large'' \<and>
   map reportsActive
     (renderChildren (uncontrolledGroup ''medium'' None None)
        \<lparr>uncontrolledValue = ''large'', owner = ()\<rparr>
        [segment ''small'', segment ''medium'', segment ''large'']) = [False, False, True]"
proof -
  let ?p = "uncontrolledGroup ''medium'' None None :: unit SegmentedButtonProps"
  let ?i = "segment ''large'' :: unit SegmentedButtonItemProps"
  let ?w = "\<lparr>uncontrolledValue = ''medium'', owner = ()\<rparr>"
  let ?w' = "\<lparr>uncontrolledValue = ''large'', owner = ()\<rparr>"
  have c: "controlledValue ?p = None"
    by (simp add: uncontrolledGroup_def)
  have i: "\<not> truthy (itemDisabled ?i)"
    by (simp add: truthy_def segment_def)
  have g: "\<not> truthy (disabledProp ?p)"
    by (simp add: truthy_def uncontrolledGroup_def)
  have k: "keepsOnClick ?i"
    by (simp add: keepsOnClick_def segment_def)
  have n: "keepsIndicators (segment v :: unit SegmentedButtonItemProps)" for v
    by (simp add: keepsIndicators_def segment_def)
  have v: "itemValue (segment x :: unit SegmentedButtonItemProps) = x" for x
    by (simp add: segment_def)
  have m: "mount ?p () = ?w"
    by (simp add: mount_def uncontrolledGroup_def)
  note t = uncontrolled_activation [OF c i g k n, of ?w]
  from t v have h: "handleValueChange ?p ''large'' ?w = ?w'"
    by (simp add: world.equality)
  from t have "\<forall>j. keepsIndicators j \<longrightarrow>
      reportsActive (SegmentedButtonItem (Some (SegmentedButton ?p (handleValueChange ?p (itemValue ?i) ?w))) j)
      = (itemValue j = itemValue ?i)"
    by blast
  with n have "reportsActive (SegmentedButtonItem (Some (SegmentedButton ?p ?w')) (segment x))
      = (x = ''large'')" for x
    by (simp add: v h)
  then have r: "map reportsActive
     (renderChildren ?p ?w' [segment ''small'', segment ''medium'', segment ''large''])
     = [False, False, True]"
    by (simp add: renderChildren_def)
  from t v h c k n m r show ?thesis
    by simp
qed

text \<open>
  The restrictions are needed. A segment that passes on a click handler of its own runs
  that handler in place of the item's, and the selection stays where it was. A segment that
  passes on indicator attributes of its own is selected by its activation, and rendered
  again it still reports what it passes on.
\<close>

theorem uncontrolled_activation_not_always_visible:
  "activate
     (Some (SegmentedButton (uncontrolledGroup ''medium'' None None)
        \<lparr>uncontrolledValue = ''medium'', owner = []\<rparr>))
     ((segment ''large'') \<lparr>props := [''onClick'' \<mapsto> Fn recordClick]\<rparr>)
     \<lparr>uncontrolledValue = ''medium'', owner = []\<rparr> =
     Inr \<lparr>uncontrolledValue = ''medium'', owner = [''clicked'']\<rparr> \<and>
   selectedValueOf (uncontrolledGroup ''medium'' None None)
     \<lparr>uncontrolledValue = ''medium'', owner = [''clicked'']\<rparr> = ''medium'' \<and>
   keepsOnClick ((segment ''large'')
     \<lparr>props := [''aria-checked'' \<mapsto> Bool False, ''data-state'' \<mapsto> Str ''inactive'']
               :: unit element\<rparr>) \<and>
   activate
     (Some (SegmentedButton (uncontrolledGroup ''medium'' None None)
        \<lparr>uncontrolledValue = ''medium'', owner = ()\<rparr>))
     ((segment ''large'')
        \<lparr>props := [''aria-checked'' \<mapsto> Bool False, ''data-state'' \<mapsto> Str ''inactive'']\<rparr>)
     \<lparr>uncontrolledValue = ''medium'', owner = ()\<rparr> =
     Inr \<lparr>uncontrolledValue = ''large'', owner = ()\<rparr> \<and>
   \<not> reportsActive (SegmentedButtonItem
     (Some (SegmentedButton (uncontrolledGroup ''medium'' None None)
        \<lparr>uncontrolledValue = ''large'', owner = ()\<rparr>))
     ((segment ''large'')
        \<lparr>props := [''aria-checked'' \<mapsto> Bool False, ''data-state'' \<mapsto> Str ''inactive'']\<rparr>))"
  by (simp add: activate_rendered isDisabled_def js_or_def truthy_def SegmentedButton_def
      selectedValueOf_def keepsOnClick_def reportsActive_def ariaChecked_rendered
      dataStateActive_rendered handleClick_def handleValueChange_def isControlled_def
      setUncontrolledValue_def samples)

subsection \<open>What a rendered segment exposes\<close>

text \<open>
  C7 (amended). For every segment item in a shared context, the computed active state
  equals (identifier = shared selected value) and the computed effectively-disabled state
  equals (own flag or group flag). The rendered output always carries the
  effectively-disabled state on its \<open>disabled\<close> attribute; it carries it on
  \<open>aria-disabled\<close>, and the active state on \<open>aria-checked\<close> and on \<open>data-state\<close>, each
  unless the segment passes on an attribute of that name.
\<close>

theorem item_states_exposed:
  assumes "SegmentedButtonItem (Some c) i = Inr b"
  shows "isSelected c i = (itemValue i = selectedValue c) \<and>
         truthy (isDisabled c i) = (truthy (itemDisabled i) \<or> truthy (disabled c)) \<and>
         b ''disabled'' = Some (optAttr (isDisabled c i)) \<and>
         (props i ''aria-disabled'' = None \<longrightarrow>
            b ''aria-disabled'' = Some (optAttr (isDisabled c i))) \<and>
         (props i ''aria-checked'' = None \<longrightarrow>
            b ''aria-checked'' = Some (Bool (isSelected c i))) \<and>
         (props i ''data-state'' = None \<longrightarrow>
            b ''data-state'' = Some (Str (if isSelected c i then ''active'' else ''inactive'')))"
proof -
  have s: "isSelected c i = (itemValue i = selectedValue c)"
    by (auto simp add: isSelected_def)
  have d: "truthy (isDisabled c i) = (truthy (itemDisabled i) \<or> truthy (disabled c))"
    by (simp add: isDisabled_def truthy_js_or)
  from assms have b: "b = [''type'' \<mapsto> Str ''button'',
                ''role'' \<mapsto> Str ''radio'',
                ''aria-checked'' \<mapsto> Bool (isSelected c i),
                ''aria-disabled'' \<mapsto> optAttr (isDisabled c i),
                ''data-state'' \<mapsto> Str (if isSelected c i then ''active'' else ''inactive''),
                ''disabled'' \<mapsto> optAttr (isDisabled c i),
                ''onClick'' \<mapsto> Fn (handleClick c i)]
               ++ (props i |` (- destructured))"
    by (simp add: SegmentedButtonItem_def useSegmentedButtonContext_def)
  have e1: "b ''disabled'' = Some (optAttr (isDisabled c i))"
    unfolding b by (simp add: map_add_def restrict_map_def destructured_def)
  have e2: "props i ''aria-disabled'' = None \<longrightarrow>
            b ''aria-disabled'' = Some (optAttr (isDisabled c i))"
    unfolding b by (simp add: map_add_def restrict_map_def)
  have e3: "props i ''aria-checked'' = None \<longrightarrow>
            b ''aria-checked'' = Some (Bool (isSelected c i))"
    unfolding b by (simp add: map_add_def restrict_map_def)
  have e4: "props i ''data-state'' = None \<longrightarrow>
            b ''data-state'' = Some (Str (if isSelected c i then ''active'' else ''inactive''))"
    unfolding b by (simp add: map_add_def restrict_map_def)
  from s d e1 e2 e3 e4 show ?thesis by blast
qed

theorem item_states_exposed_witness:
  "\<not> isl (SegmentedButtonItem
      (Some (SegmentedButton (uncontrolledGroup ''week'' None (Some True))
         \<lparr>uncontrolledValue = ''week'', owner = ()\<rparr>))
      (segment ''week'')) \<and>
   projr (SegmentedButtonItem
      (Some (SegmentedButton (uncontrolledGroup ''week'' None (Some True))
         \<lparr>uncontrolledValue = ''week'', owner = ()\<rparr>))
      (segment ''week'')) ''disabled'' = Some (Bool True) \<and>
   projr (SegmentedButtonItem
      (Some (SegmentedButton (uncontrolledGroup ''week'' None (Some True))
         \<lparr>uncontrolledValue = ''week'', owner = ()\<rparr>))
      (segment ''week'')) ''aria-disabled'' = Some (Bool True) \<and>
   projr (SegmentedButtonItem
      (Some (SegmentedButton (uncontrolledGroup ''week'' None (Some True))
         \<lparr>uncontrolledValue = ''week'', owner = ()\<rparr>))
      (segment ''week'')) ''aria-checked'' = Some (Bool True) \<and>
   projr (SegmentedButtonItem
      (Some (SegmentedButton (uncontrolledGroup ''week'' None (Some True))
         \<lparr>uncontrolledValue = ''week'', owner = ()\<rparr>))
      (segment ''week'')) ''data-state'' = Some (Str ''active'')"
proof -
  let ?c = "SegmentedButton (uncontrolledGroup ''week'' None (Some True))
         \<lparr>uncontrolledValue = ''week'', owner = ()\<rparr>"
  let ?i = "segment ''week'' :: unit SegmentedButtonItemProps"
  obtain b where b: "SegmentedButtonItem (Some ?c) ?i = Inr b"
    by (simp add: SegmentedButtonItem_def useSegmentedButtonContext_def)
  have p: "props ?i = Map.empty"
    by (simp add: segment_def)
  have s: "isSelected ?c ?i"
    by (simp add: isSelected_def SegmentedButton_def selectedValueOf_def samples)
  have d: "isDisabled ?c ?i = Some True"
    by (simp add: isDisabled_def js_or_def truthy_def SegmentedButton_def samples)
  from item_states_exposed [OF b] p s d
  have "b ''disabled'' = Some (Bool True) \<and> b ''aria-disabled'' = Some (Bool True) \<and>
        b ''aria-checked'' = Some (Bool True) \<and> b ''data-state'' = Some (Str ''active'')"
    by (simp add: optAttr_def)
  with b show ?thesis
    by simp
qed

text \<open>
  The restriction is needed: a selected segment that passes on both indicator attributes
  is computed active, and its rendered output shows neither indicator as active.
\<close>

theorem passed_on_indicators_hide_active_state:
  "isSelected
     (SegmentedButton (uncontrolledGroup ''week'' None None)
        \<lparr>uncontrolledValue = ''week'', owner = ()\<rparr>)
     ((segment ''week'')
        \<lparr>props := [''aria-checked'' \<mapsto> Bool False, ''data-state'' \<mapsto> Str ''inactive'']\<rparr>) \<and>
   \<not> ariaChecked (SegmentedButtonItem
     (Some (SegmentedButton (uncontrolledGroup ''week'' None None)
        \<lparr>uncontrolledValue = ''week'', owner = ()\<rparr>))
     ((segment ''week'')
        \<lparr>props := [''aria-checked'' \<mapsto> Bool False, ''data-state'' \<mapsto> Str ''inactive'']\<rparr>)) \<and>
   \<not> dataStateActive (SegmentedButtonItem
     (Some (SegmentedButton (uncontrolledGroup ''week'' None None)
        \<lparr>uncontrolledValue = ''week'', owner = ()\<rparr>))
     ((segment ''week'')
        \<lparr>props := [''aria-checked'' \<mapsto> Bool False, ''data-state'' \<mapsto> Str ''inactive'']\<rparr>))"
  by (simp add: ariaChecked_rendered dataStateActive_rendered isSelected_def SegmentedButton_def
      selectedValueOf_def samples)

text \<open>
  C9 (amended). For every rendered segment that passes on neither indicator attribute,
  the two indicators agree: the checked attribute is true exactly when the state attribute
  is \<open>active\<close>, and both hold exactly when the segment's identifier equals the shared
  selected value.
\<close>

theorem indicators_agree:
  assumes "keepsIndicators i"
  shows "ariaChecked (SegmentedButtonItem (Some c) i) =
           dataStateActive (SegmentedButtonItem (Some c) i) \<and>
         ariaChecked (SegmentedButtonItem (Some c) i) = (itemValue i = selectedValue c)"
  using assms
  by (auto simp add: ariaChecked_rendered dataStateActive_rendered keepsIndicators_def
      isSelected_def)

theorem indicators_agree_witness:
  "keepsIndicators (segment ''week'' :: unit SegmentedButtonItemProps) \<and>
   ariaChecked (SegmentedButtonItem
     (Some (SegmentedButton (uncontrolledGroup ''week'' None None)
        \<lparr>uncontrolledValue = ''week'', owner = ()\<rparr>))
     (segment ''week'')) \<and>
   dataStateActive (SegmentedButtonItem
     (Some (SegmentedButton (uncontrolledGroup ''week'' None None)
        \<lparr>uncontrolledValue = ''week'', owner = ()\<rparr>))
     (segment ''week'')) \<and>
   \<not> ariaChecked (SegmentedButtonItem
     (Some (SegmentedButton (uncontrolledGroup ''week'' None None)
        \<lparr>uncontrolledValue = ''week'', owner = ()\<rparr>))
     (segment ''day'')) \<and>
   \<not> dataStateActive (SegmentedButtonItem
     (Some (SegmentedButton (uncontrolledGroup ''week'' None None)
        \<lparr>uncontrolledValue = ''week'', owner = ()\<rparr>))
     (segment ''day''))"
proof -
  let ?c = "SegmentedButton (uncontrolledGroup ''week'' None None)
        \<lparr>uncontrolledValue = ''week'', owner = ()\<rparr>"
  let ?i = "segment ''week'' :: unit SegmentedButtonItemProps"
  let ?j = "segment ''day'' :: unit SegmentedButtonItemProps"
  have k: "keepsIndicators ?i"
    by (simp add: keepsIndicators_def segment_def)
  have l: "keepsIndicators ?j"
    by (simp add: keepsIndicators_def segment_def)
  have v: "itemValue ?i = selectedValue ?c"
    by (simp add: SegmentedButton_def selectedValueOf_def samples)
  have u: "itemValue ?j \<noteq> selectedValue ?c"
    by (simp add: SegmentedButton_def selectedValueOf_def samples)
  from indicators_agree [OF k, of ?c] indicators_agree [OF l, of ?c] v u k show ?thesis
    by blast
qed

text \<open>
  The restriction is needed: a selected segment that passes on a false checked attribute
  is rendered unchecked while its state attribute is \<open>active\<close>.
\<close>

theorem passed_on_checked_disagrees_with_state:
  "\<not> ariaChecked (SegmentedButtonItem
     (Some (SegmentedButton (uncontrolledGroup ''week'' None None)
        \<lparr>uncontrolledValue = ''week'', owner = ()\<rparr>))
     ((segment ''week'') \<lparr>props := [''aria-checked'' \<mapsto> Bool False]\<rparr>)) \<and>
   dataStateActive (SegmentedButtonItem
     (Some (SegmentedButton (uncontrolledGroup ''week'' None None)
        \<lparr>uncontrolledValue = ''week'', owner = ()\<rparr>))
     ((segment ''week'') \<lparr>props := [''aria-checked'' \<mapsto> Bool False]\<rparr>))"
  by (simp add: ariaChecked_rendered dataStateActive_rendered isSelected_def SegmentedButton_def
      selectedValueOf_def samples)

subsection \<open>Activating the selected segment again\<close>

text \<open>
  C10 (amended). In an uncontrolled group, activating the already selected segment, when
  that segment is not disabled and passes on no click handler of its own, leaves the
  selected value as it is and still applies the external notification function, if
  present, to that same identifier: there is no toggling off.
\<close>

theorem reselect_idempotent_and_notified:
  assumes "controlledValue p = None" and "selectedValueOf p w = itemValue i"
    and "\<not> truthy (itemDisabled i)" and "\<not> truthy (disabledProp p)"
    and "keepsOnClick i"
  shows "activate (Some (SegmentedButton p w)) i w = Inr (handleValueChange p (itemValue i) w) \<and>
         uncontrolledValue (handleValueChange p (itemValue i) w) = uncontrolledValue w \<and>
         selectedValueOf p (handleValueChange p (itemValue i) w) = selectedValueOf p w \<and>
         (\<forall>f. onValueChangeProp p = Some f \<longrightarrow>
              owner (handleValueChange p (itemValue i) w) = f (itemValue i) (owner w)) \<and>
         (onValueChangeProp p = None \<longrightarrow> handleValueChange p (itemValue i) w = w)"
proof -
  from assms(3,4,5)
  have a: "activate (Some (SegmentedButton p w)) i w = Inr (handleValueChange p (itemValue i) w)"
    by (simp add: activate_in_group)
  from assms(1,2) have u: "uncontrolledValue w = itemValue i"
    by (simp add: selectedValueOf_def)
  from assms(1) have nc: "\<not> isControlled p"
    by (simp add: isControlled_def)
  with u have l: "uncontrolledValue (handleValueChange p (itemValue i) w) = uncontrolledValue w"
    by (simp add: handleValueChange_local)
  with assms(1) have s: "selectedValueOf p (handleValueChange p (itemValue i) w) = selectedValueOf p w"
    by (simp add: selectedValueOf_def)
  have n: "\<forall>f. onValueChangeProp p = Some f \<longrightarrow>
              owner (handleValueChange p (itemValue i) w) = f (itemValue i) (owner w)"
    by (simp add: handleValueChange_owner)
  from u have "setUncontrolledValue (itemValue i) w = w"
    by (simp add: setUncontrolledValue_def)
  then have z: "onValueChangeProp p = None \<longrightarrow> handleValueChange p (itemValue i) w = w"
    by (simp add: handleValueChange_def)
  from a l s n z show ?thesis by blast
qed

theorem reselect_idempotent_and_notified_witness:
  "controlledValue (uncontrolledGroup ''medium'' (Some recordCall) None) = None \<and>
   selectedValueOf (uncontrolledGroup ''medium'' (Some recordCall) None)
     \<lparr>uncontrolledValue = ''medium'', owner = []\<rparr> = ''medium'' \<and>
   keepsOnClick (segment ''medium'' :: string list SegmentedButtonItemProps) \<and>
   activate
     (Some (SegmentedButton (uncontrolledGroup ''medium'' (Some recordCall) None)
        \<lparr>uncontrolledValue = ''medium'', owner = []\<rparr>))
     (segment ''medium'') \<lparr>uncontrolledValue = ''medium'', owner = []\<rparr> =
     Inr \<lparr>uncontrolledValue = ''medium'', owner = [''medium'']\<rparr>"
proof -
  let ?p = "uncontrolledGroup ''medium'' (Some recordCall) None"
  let ?i = "segment ''medium'' :: string list SegmentedButtonItemProps"
  let ?w = "\<lparr>uncontrolledValue = ''medium'', owner = [] :: string list\<rparr>"
  have c: "controlledValue ?p = None"
    by (simp add: uncontrolledGroup_def)
  have v: "itemValue ?i = ''medium''"
    by (simp add: segment_def)
  have s: "selectedValueOf ?p ?w = itemValue ?i"
    by (simp add: selectedValueOf_def uncontrolledGroup_def segment_def)
  have i: "\<not> truthy (itemDisabled ?i)"
    by (simp add: truthy_def segment_def)
  have g: "\<not> truthy (disabledProp ?p)"
    by (simp add: truthy_def uncontrolledGroup_def)
  have k: "keepsOnClick ?i"
    by (simp add: keepsOnClick_def segment_def)
  have f: "onValueChangeProp ?p = Some recordCall"
    by (simp add: uncontrolledGroup_def)
  note t = reselect_idempotent_and_notified [OF c s i g k]
  from t f v have "handleValueChange ?p ''medium'' ?w = \<lparr>uncontrolledValue = ''medium'', owner = [''medium'']\<rparr>"
    by (simp add: recordCall_def world.equality)
  with t v c s k show ?thesis
    by simp
qed

text \<open>
  The restrictions are needed: when the selected segment is disabled (here through the
  group's flag) its activation notifies nobody, and when it passes on a click handler of
  its own that handler runs in place of the notification.
\<close>

theorem reselect_not_always_notified:
  "selectedValueOf (uncontrolledGroup ''medium'' (Some recordCall) (Some True))
     \<lparr>uncontrolledValue = ''medium'', owner = []\<rparr> = ''medium'' \<and>
   activate
     (Some (SegmentedButton (uncontrolledGroup ''medium'' (Some recordCall) (Some True))
        \<lparr>uncontrolledValue = ''medium'', owner = []\<rparr>))
     (segment ''medium'') \<lparr>uncontrolledValue = ''medium'', owner = []\<rparr> =
     Inr \<lparr>uncontrolledValue = ''medium'', owner = []\<rparr> \<and>
   activate
     (Some (SegmentedButton (uncontrolledGroup ''medium'' (Some recordCall) None)
        \<lparr>uncontrolledValue = ''medium'', owner = []\<rparr>))
     ((segment ''medium'') \<lparr>props := [''onClick'' \<mapsto> Fn recordClick]\<rparr>)
     \<lparr>uncontrolledValue = ''medium'', owner = []\<rparr> =
     Inr \<lparr>uncontrolledValue = ''medium'', owner = [''clicked'']\<rparr>"
  by (simp add: activate_rendered isDisabled_def js_or_def truthy_def SegmentedButton_def
      selectedValueOf_def samples)

end
